theory Spec2Isabelle
  imports Main "HOL-Library.AList"
begin

text \<open>
  A model of BST, a static-site asset builder: the module \<open>src/index.ts\<close> (documents,
  reference rewriting, the style and script transforms) and the script \<open>build.ts\<close> that
  drives it.  Functions of the program are translated one by one and keep their names.
  Library functions it calls (\<open>node:path\<close>, \<open>domutils\<close>, \<open>Set\<close>, string methods) are
  modelled by what they compute; the libraries that do the heavy work (the HTML parser and
  serializer, the style compiler, the bundler, the minifiers) and the file system are
  parameters.  Exceptions and rejected promises are values of a sum type; the mutation of a
  document or of the output map is a new value returned.
\<close>

section \<open>JavaScript strings\<close>

text \<open>
  Strings are \<open>string\<close> (lists of characters).  The operations below are the ones
  the build script and its module use: \<open>String.prototype.startsWith\<close>,
  \<open>endsWith\<close>, \<open>split\<close> at a one-character separator, \<open>Array.prototype.join\<close>
  and \<open>includes\<close>/\<open>indexOf\<close> of a substring.
\<close>

definition startsWith :: "string \<Rightarrow> string \<Rightarrow> bool" where
  "startsWith s p = (take (length p) s = p)"

definition endsWith :: "string \<Rightarrow> string \<Rightarrow> bool" where
  "endsWith s p = (length p \<le> length s \<and> drop (length s - length p) s = p)"

text \<open>\<open>s.split(c)\<close>: never the empty array; \<open>''''.split(c)\<close> is \<open>['''']\<close>.\<close>

fun split :: "char \<Rightarrow> string \<Rightarrow> string list" where
  "split c [] = [[]]"
| "split c (x # xs) =
     (if x = c then [] # split c xs
      else (case split c xs of
              [] \<Rightarrow> [[x]]
            | w # ws \<Rightarrow> (x # w) # ws))"

text \<open>\<open>arr.join(sep)\<close>.\<close>

fun join :: "string \<Rightarrow> string list \<Rightarrow> string" where
  "join sep [] = []"
| "join sep [w] = w"
| "join sep (w # v # ws) = w @ sep @ join sep (v # ws)"

text \<open>\<open>s.indexOf(p)\<close> as an option: \<open>None\<close> is JavaScript's \<open>-1\<close>.\<close>

fun indexOf :: "string \<Rightarrow> string \<Rightarrow> nat option" where
  "indexOf [] p = (if p = [] then Some 0 else None)"
| "indexOf (x # xs) p =
     (if startsWith (x # xs) p then Some 0
      else map_option Suc (indexOf xs p))"

definition str_includes :: "string \<Rightarrow> string \<Rightarrow> bool" where
  "str_includes s p = (indexOf s p \<noteq> None)"

section \<open>POSIX paths (\<open>node:path\<close>)\<close>

text \<open>
  The functions of \<open>node:path\<close> the program calls, in their POSIX variant.
  \<open>normalizeString\<close> is the library's segment walk: empty segments and \<open>.\<close>
  are dropped, \<open>..\<close> removes the segment before it unless there is none or it is
  itself \<open>..\<close>, in which case it is kept only when the path may climb above its
  start (a relative path).  The accumulator holds the segments kept so far, last first.
\<close>

fun normalizeSegs :: "bool \<Rightarrow> string list \<Rightarrow> string list \<Rightarrow> string list" where
  "normalizeSegs allowAboveRoot acc [] = rev acc"
| "normalizeSegs allowAboveRoot acc (s # ss) =
     (if s = '''' \<or> s = ''.'' then normalizeSegs allowAboveRoot acc ss
      else if s = ''..'' then
        (case acc of
           [] \<Rightarrow> normalizeSegs allowAboveRoot (if allowAboveRoot then [''..''] else []) ss
         | a # as \<Rightarrow>
             if a = ''..'' then
               normalizeSegs allowAboveRoot (if allowAboveRoot then ''..'' # acc else acc) ss
             else normalizeSegs allowAboveRoot as ss)
      else normalizeSegs allowAboveRoot (s # acc) ss)"

definition normalizeString :: "string \<Rightarrow> bool \<Rightarrow> string" where
  "normalizeString p allowAboveRoot =
     join ''/'' (normalizeSegs allowAboveRoot [] (split CHR ''/'' p))"

definition path_normalize :: "string \<Rightarrow> string" where
  "path_normalize p =
     (if p = [] then ''.''
      else
        let isAbsolute = (hd p = CHR ''/'');
            trailingSeparator = (last p = CHR ''/'');
            q = normalizeString p (\<not> isAbsolute)
        in if q = [] then (if isAbsolute then ''/'' else if trailingSeparator then ''./'' else ''.'')
           else (if isAbsolute then ''/'' else '''') @ q @ (if trailingSeparator then ''/'' else ''''))"

text \<open>\<open>path.join(a, b)\<close>: empty arguments are skipped, the rest joined by \<open>/\<close> and normalized.\<close>

definition path_join :: "string \<Rightarrow> string \<Rightarrow> string" where
  "path_join a b =
     (if a = [] \<and> b = [] then ''.''
      else if a = [] then path_normalize b
      else if b = [] then path_normalize a
      else path_normalize (a @ ''/'' @ b))"

text \<open>
  \<open>path.resolve(p)\<close> with the working directory \<open>cwd\<close> (an absolute path): the
  segments of the absolute, normalized path, without the leading \<open>/\<close>.
\<close>

definition resolveSegs :: "string \<Rightarrow> string \<Rightarrow> string list" where
  "resolveSegs cwd p =
     (if p \<noteq> [] \<and> hd p = CHR ''/'' then normalizeSegs False [] (split CHR ''/'' p)
      else normalizeSegs False [] (split CHR ''/'' (cwd @ ''/'' @ p)))"

definition path_resolve :: "string \<Rightarrow> string \<Rightarrow> string" where
  "path_resolve cwd p = ''/'' @ join ''/'' (resolveSegs cwd p)"

fun stripCommon :: "string list \<Rightarrow> string list \<Rightarrow> string list \<times> string list" where
  "stripCommon (a # as) (b # bs) = (if a = b then stripCommon as bs else (a # as, b # bs))"
| "stripCommon as bs = (as, bs)"

text \<open>
  \<open>path.relative(from, to)\<close>: both are resolved against the working directory, the
  common leading segments are dropped, and the result climbs out of what is left of
  \<open>from\<close> and descends into what is left of \<open>to\<close>.
\<close>

definition path_relative :: "string \<Rightarrow> string \<Rightarrow> string \<Rightarrow> string" where
  "path_relative cwd from to =
     (if from = to then ''''
      else
        let (f, t) = stripCommon (resolveSegs cwd from) (resolveSegs cwd to)
        in join ''/'' (replicate (length f) ''..'' @ t))"

text \<open>\<open>path.dirname\<close>, \<open>path.basename\<close> and \<open>path.extname\<close>, scanning from the end as the library does.\<close>

definition path_dirname :: "string \<Rightarrow> string" where
  "path_dirname p =
     (if p = [] then ''.''
      else
        let hasRoot = (hd p = CHR ''/'');
            r = dropWhile (\<lambda>c. c \<noteq> CHR ''/'') (dropWhile (\<lambda>c. c = CHR ''/'') (rev (tl p)))
        in if r = [] then (if hasRoot then ''/'' else ''.'')
           else if hasRoot \<and> length r = 1 then ''//''
           else take (length r) p)"

definition path_basename :: "string \<Rightarrow> string" where
  "path_basename p = rev (takeWhile (\<lambda>c. c \<noteq> CHR ''/'') (dropWhile (\<lambda>c. c = CHR ''/'') (rev p)))"

definition path_extname :: "string \<Rightarrow> string" where
  "path_extname p =
     (let b = path_basename p;
          ext = rev (takeWhile (\<lambda>c. c \<noteq> CHR ''.'') (rev b));
          pre = take (length b - length ext - 1) b
      in if CHR ''.'' \<notin> set b \<or> pre = [] \<or> b = ''..'' then ''''
         else CHR ''.'' # ext)"

section \<open>The document tree (\<open>domhandler\<close>, \<open>domutils\<close>)\<close>

text \<open>
  A parsed document is the list of its top-level nodes.  An element has a name, its
  attributes in insertion order, and children; the other node kinds have no children.
  An attribute value is \<open>Some\<close> string, or \<open>None\<close> for JavaScript's \<open>undefined\<close>
  (the parser never produces it; \<open>new Element\<close> in \<open>convertCSSToNonBlocking\<close> can).
\<close>

type_synonym attribs = "(string \<times> string option) list"

datatype node =
    Element string attribs "node list"
  | Text string
  | Comment string
  | Directive string

text \<open>\<open>elem.attribs[name]\<close>: \<open>None\<close> when the property is missing or \<open>undefined\<close>.\<close>

definition attrib :: "attribs \<Rightarrow> string \<Rightarrow> string option" where
  "attrib a k = (case map_of a k of None \<Rightarrow> None | Some v \<Rightarrow> v)"

fun node_attrib :: "node \<Rightarrow> string \<Rightarrow> string option" where
  "node_attrib (Element nm a cs) k = attrib a k"
| "node_attrib n k = None"


text \<open>\<open>DomUtils.hasAttrib(node, name)\<close>: an element whose attribute is present and not \<open>undefined\<close>.\<close>

definition hasAttrib :: "node \<Rightarrow> string \<Rightarrow> bool" where
  "hasAttrib n k = (node_attrib n k \<noteq> None)"

text \<open>\<open>elem.attribs[name] = value\<close>: an existing property keeps its place, a new one goes last.\<close>

definition setAttrib :: "string \<Rightarrow> string \<Rightarrow> attribs \<Rightarrow> attribs" where
  "setAttrib k v a = AList.update k (Some v) a"

text \<open>\<open>DomUtils.findAll(test, nodes)\<close>: the elements that pass the test, in document order.\<close>

fun findAllNode :: "(node \<Rightarrow> bool) \<Rightarrow> node \<Rightarrow> node list" where
  "findAllNode test (Element nm a cs) =
     (if test (Element nm a cs) then [Element nm a cs] else []) @ concat (map (findAllNode test) cs)"
| "findAllNode test n = []"

definition findAll :: "(node \<Rightarrow> bool) \<Rightarrow> node list \<Rightarrow> node list" where
  "findAll test nodes = concat (map (findAllNode test) nodes)"

text \<open>
  The loops of \<open>index.ts\<close> of the shape
  \<open>for (const node of DomUtils.findAll(test, doc.children)) node.attribs.k = ...\<close>
  change only the attributes of the nodes found, and the tests read only the node's own
  name and attributes, so the loop is the tree walk that rewrites the attributes of every
  element passing the test.
\<close>

fun forEachFound :: "(node \<Rightarrow> bool) \<Rightarrow> (attribs \<Rightarrow> attribs) \<Rightarrow> node \<Rightarrow> node" where
  "forEachFound test f (Element nm a cs) =
     Element nm (if test (Element nm a cs) then f a else a) (map (forEachFound test f) cs)"
| "forEachFound test f n = n"

section \<open>\<open>src/index.ts\<close>\<close>

subsection \<open>\<open>uniq\<close> and the class normalization of \<open>getHTML\<close>\<close>

text \<open>
  \<open>uniq(arr) = Array.from(new Set(arr))\<close>: the elements are added to a set one by
  one, a set keeps insertion order, and adding a member again changes nothing.
\<close>

definition set_add :: "'a list \<Rightarrow> 'a \<Rightarrow> 'a list" where
  "set_add s x = (if x \<in> set s then s else s @ [x])"

definition uniq :: "'a list \<Rightarrow> 'a list" where
  "uniq arr = foldl set_add [] arr"

text \<open>The body of the normalization loop, on the value of the class attribute.\<close>

definition normalizeClass :: "string \<Rightarrow> string" where
  "normalizeClass cls = join '' '' (uniq (split CHR '' '' cls))"

definition normalizeClassAttribs :: "attribs \<Rightarrow> attribs" where
  "normalizeClassAttribs a =
     (case attrib a ''class'' of
        None \<Rightarrow> a
      | Some cls \<Rightarrow> setAttrib ''class'' (normalizeClass cls) a)"

definition normalizeClasses :: "node list \<Rightarrow> node list" where
  "normalizeClasses doc =
     map (forEachFound (\<lambda>n. hasAttrib n ''class'') normalizeClassAttribs) doc"

subsection \<open>Errors\<close>

text \<open>
  The errors the program raises itself, and \<open>External\<close> for an error raised by a
  library it calls (the style compiler, the bundler, the serializer, the minifier, the
  file system).
\<close>

datatype artifact_kind = EntryPoint | Chunk | Asset | Sourcemap | Bytecode

datatype error =
    NotFound string            \<comment> \<open>\<open>`${pathname} not found`\<close>\<close>
  | TranspileFailed string     \<comment> \<open>\<open>`Failed to transpile: ${pathname}`\<close>\<close>
  | OutputCount nat            \<comment> \<open>\<open>`Expected one output while transpiling, got ${n}`\<close>\<close>
  | NotEntryPoint artifact_kind  \<comment> \<open>\<open>`Expected output to be an entry-point, got ${kind}`\<close>\<close>
  | InvalidArgType             \<comment> \<open>the \<open>TypeError\<close> of \<open>path.normalize(undefined)\<close>\<close>
  | External string

subsection \<open>The libraries and the file system the program runs against\<close>

record build_output =
  success :: bool
  outputs :: "(artifact_kind \<times> string) list"

datatype dir_entry = FileEntry | DirEntry "(string \<times> dir_entry) list"

text \<open>
  Everything the program does not compute itself is a field of \<open>env\<close>.  A URL is
  represented by its pathname (every URL here is a \<open>file:\<close> URL).
\<close>

record env =
  cwd :: string
    \<comment> \<open>\<open>process.cwd()\<close>, which \<open>path.relative\<close> resolves against\<close>
  file_text :: "string \<Rightarrow> string option"
    \<comment> \<open>\<open>Bun.file(p)\<close>: \<open>Some\<close> text when \<open>exists()\<close> holds (a regular file), else \<open>None\<close>\<close>
  is_directory :: "string \<Rightarrow> bool"
    \<comment> \<open>\<open>(await lstat(p)).isDirectory()\<close>, \<open>False\<close> when \<open>lstat\<close> rejects\<close>
  readdir_tree :: "string \<Rightarrow> error + (string \<times> dir_entry) list"
    \<comment> \<open>what \<open>readdir\<close> and \<open>lstat\<close> report below a directory\<close>
  new_URL :: "string \<Rightarrow> string \<Rightarrow> string"
    \<comment> \<open>the pathname of \<open>new URL(ref, base)\<close>, for the pathname of \<open>base\<close>\<close>
  parseDocument :: "string \<Rightarrow> node list"
  sass_compile ::
    "string \<Rightarrow> (string \<Rightarrow> string option \<Rightarrow> string) \<Rightarrow> (string \<Rightarrow> error + string \<times> string) \<Rightarrow> bool
       \<Rightarrow> error + string"
    \<comment> \<open>\<open>compileStringAsync(source, {importer: {canonicalize, load}, style})\<close>; the flag is \<open>style = compressed\<close>\<close>
  bun_build :: "string \<Rightarrow> string \<Rightarrow> bool \<Rightarrow> error + build_output"
    \<comment> \<open>\<open>Bun.build\<close> of one entry point, with \<open>root\<close> and \<open>minify\<close>\<close>
  removeExportsFromJS :: "string \<Rightarrow> bool \<Rightarrow> string"
    \<comment> \<open>the TypeScript transformer and printer of \<open>removeExportsFromJS\<close>\<close>
  minifyJS :: "string \<Rightarrow> string"
  serializeHTML :: "node list \<Rightarrow> error + string"
  minifyHTML :: "string \<Rightarrow> error + string"
  micromatch :: "string \<Rightarrow> bool"
    \<comment> \<open>whether a path matches the glob \<open>**/*.html\<close>\<close>
  exists_dir :: "string \<Rightarrow> bool"
    \<comment> \<open>\<open>exists(p)\<close> of \<open>node:fs/promises\<close>\<close>
  fs_rejects :: "string \<Rightarrow> error option"
    \<comment> \<open>the error with which \<open>mkdir\<close>, \<open>Bun.write\<close>, \<open>copyFile\<close> or \<open>unlink\<close> rejects for a path\<close>

subsection \<open>Files\<close>

fun pickFirstExisting :: "(string \<Rightarrow> string option) \<Rightarrow> string list \<Rightarrow> string option" where
  "pickFirstExisting text [] = None"
| "pickFirstExisting text (file # files) =
     (if text file \<noteq> None then Some file else pickFirstExisting text files)"

fun getFilesRecursively :: "string \<Rightarrow> (string \<times> dir_entry) list \<Rightarrow> string list"
  and getFilesEntry :: "string \<Rightarrow> dir_entry \<Rightarrow> string list" where
  "getFilesRecursively dir [] = []"
| "getFilesRecursively dir (e # entries) =
     getFilesEntry (path_join dir (fst e)) (snd e) @ getFilesRecursively dir entries"
| "getFilesEntry entryPath FileEntry = [entryPath]"
| "getFilesEntry entryPath (DirEntry sub) = getFilesRecursively entryPath sub"

definition getFilesMatching :: "env \<Rightarrow> string \<Rightarrow> error + string list" where
  "getFilesMatching e pathname =
     (case readdir_tree e pathname of
        Inl err \<Rightarrow> Inl err
      | Inr tree \<Rightarrow>
          Inr (map (\<lambda>file. path_join pathname (path_relative (cwd e) pathname file))
                 (filter (micromatch e) (getFilesRecursively pathname tree))))"

subsection \<open>Documents\<close>

definition getHTML :: "env \<Rightarrow> string \<Rightarrow> error + node list" where
  "getHTML e pathname =
     (case file_text e pathname of
        None \<Rightarrow> Inl (NotFound pathname)
      | Some html \<Rightarrow> Inr (normalizeClasses (parseDocument e html)))"

fun isStylesheetLink :: "node \<Rightarrow> bool" where
  "isStylesheetLink (Element nm a cs) = (nm = ''link'' \<and> attrib a ''rel'' = Some ''stylesheet'')"
| "isStylesheetLink n = False"

definition getCSSElements :: "node list \<Rightarrow> node list" where
  "getCSSElements document = findAll isStylesheetLink document"

text \<open>
  \<open>.map(pathname => path.normalize(pathname))\<close>: \<open>path.normalize\<close> throws a
  \<open>TypeError\<close> for \<open>undefined\<close>, the value of a missing attribute.
\<close>

definition normalizeAll :: "string option list \<Rightarrow> error + string list" where
  "normalizeAll refs =
     (case those refs of
        None \<Rightarrow> Inl InvalidArgType
      | Some paths \<Rightarrow> Inr (map path_normalize paths))"

definition getCSSImports :: "node list \<Rightarrow> error + string list" where
  "getCSSImports document = normalizeAll (map (\<lambda>n. node_attrib n ''href'') (getCSSElements document))"

definition replaceCSSImports :: "node list \<Rightarrow> string \<Rightarrow> string \<Rightarrow> node list" where
  "replaceCSSImports document original replaced =
     map (forEachFound isStylesheetLink
            (\<lambda>a. if attrib a ''href'' = Some original then setAttrib ''href'' replaced a else a))
         document"

fun isScriptWithSrc :: "node \<Rightarrow> bool" where
  "isScriptWithSrc (Element nm a cs) = (nm = ''script'' \<and> hasAttrib (Element nm a cs) ''src'')"
| "isScriptWithSrc n = False"

definition getJSElements :: "node list \<Rightarrow> node list" where
  "getJSElements document = findAll isScriptWithSrc document"

definition getJSImports :: "node list \<Rightarrow> error + string list" where
  "getJSImports document = normalizeAll (map (\<lambda>n. node_attrib n ''src'') (getJSElements document))"

definition replaceJSImports :: "node list \<Rightarrow> string \<Rightarrow> string \<Rightarrow> node list" where
  "replaceJSImports document original replaced =
     map (forEachFound isScriptWithSrc
            (\<lambda>a. if attrib a ''src'' = Some original then setAttrib ''src'' replaced a else a))
         document"

subsection \<open>\<open>convertCSSToNonBlocking\<close>\<close>

text \<open>
  The two \<open>domutils\<close> calls of the loop body act on the children array of the
  element's parent; the element is named by its index there.
  \<open>DomUtils.append(elem, next)\<close> makes \<open>next\<close> the sibling right after \<open>elem\<close>:
  it is spliced in before the old next sibling of \<open>elem\<close>, or pushed when \<open>elem\<close>
  was the last child.  \<open>DomUtils.removeElement(elem)\<close> takes \<open>elem\<close> out.
\<close>

definition DomUtils_append :: "node list \<Rightarrow> nat \<Rightarrow> node \<Rightarrow> node list" where
  "DomUtils_append siblings i nxt = take (Suc i) siblings @ nxt # drop (Suc i) siblings"

definition DomUtils_removeElement :: "node list \<Rightarrow> nat \<Rightarrow> node list" where
  "DomUtils_removeElement siblings i = take i siblings @ drop (Suc i) siblings"

definition preloadLink :: "string option \<Rightarrow> node" where
  "preloadLink href =
     Element ''link''
       [(''rel'', Some ''preload''), (''href'', href), (''as'', Some ''style''),
        (''onload'', Some ''this.onload=null;this.rel=`stylesheet`'')] []"

definition noscriptFallback :: "string option \<Rightarrow> node" where
  "noscriptFallback href =
     Element ''noscript'' [] [Element ''link'' [(''rel'', Some ''stylesheet''), (''href'', href)] []]"

text \<open>The loop body, for the element at index \<open>i\<close> of its parent's children.\<close>

definition nonBlockingBody :: "node list \<Rightarrow> nat \<Rightarrow> node list" where
  "nonBlockingBody siblings i =
     (let element = siblings ! i;
          preload = preloadLink (node_attrib element ''href'');
          noscript = noscriptFallback (node_attrib element ''href'');
          s1 = DomUtils_append siblings i preload;
          s2 = DomUtils_append s1 i noscript
      in DomUtils_removeElement s2 i)"

text \<open>
  The loop runs over the stylesheet links found before any change, in document order.
  On the tree this is a walk along each children array: at a stylesheet link the body
  runs and the walk goes on behind the two nodes it put in (they were not among the
  elements found, and neither was anything below the removed link); any other
  element is entered.
\<close>

function convertCSSToNonBlocking :: "node list \<Rightarrow> node list" where
  "convertCSSToNonBlocking [] = []"
| "convertCSSToNonBlocking (n # ns) =
     (if isStylesheetLink n then
        (case nonBlockingBody (n # ns) 0 of
           a # b # rest \<Rightarrow> a # b # convertCSSToNonBlocking rest
         | short \<Rightarrow> short)
      else
        (case n of
           Element nm a cs \<Rightarrow> Element nm a (convertCSSToNonBlocking cs)
         | other \<Rightarrow> other) # convertCSSToNonBlocking ns)"
  by pat_completeness auto
termination
  apply (relation "measure (size_list size)")
  apply (auto simp: nonBlockingBody_def DomUtils_append_def DomUtils_removeElement_def Let_def)
  done

subsection \<open>\<open>transpileCSS\<close>\<close>

text \<open>The importer handed to the style compiler.\<close>

definition canonicalize :: "env \<Rightarrow> string \<Rightarrow> string \<Rightarrow> string option \<Rightarrow> string" where
  "canonicalize e pathname url containingUrl =
     (let url1 = (if str_includes url ''/~/'' then
                    (case indexOf url ''/~/'' of
                       Some i \<Rightarrow> drop (i + 1) url
                     | None \<Rightarrow> url)
                  else url)
      in if startsWith url1 ''~/'' then new_URL e (drop 2 url1) ''/node_modules/''
         else new_URL e url1
                (case containingUrl of
                   Some c \<Rightarrow> c
                 | None \<Rightarrow> new_URL e pathname ''/''))"

definition isDir :: "env \<Rightarrow> string \<Rightarrow> bool" where
  "isDir e pathname = is_directory e pathname"

definition loadCandidates :: "env \<Rightarrow> string \<Rightarrow> string list" where
  "loadCandidates e canonPath =
     [canonPath,
      if isDir e canonPath then path_join canonPath ''_index.scss''
      else path_join (path_dirname canonPath) (''_'' @ path_basename canonPath)]"

definition load :: "env \<Rightarrow> string \<Rightarrow> error + string \<times> string" where
  "load e canonicalUrl =
     (let canonPath = drop 1 canonicalUrl
      in case pickFirstExisting (file_text e) (loadCandidates e canonPath) of
           None \<Rightarrow> Inl (NotFound canonPath)
         | Some file \<Rightarrow>
             (case file_text e file of
                None \<Rightarrow> Inl (NotFound file)
              | Some contents \<Rightarrow> Inr (contents, ''scss'')))"

text \<open>
  \<open>transpileCache\<close> is never written (the module only calls \<open>has\<close> and \<open>get\<close>),
  so its lookup always misses.
\<close>

definition transpileCSS :: "env \<Rightarrow> string \<Rightarrow> bool \<Rightarrow> error + string" where
  "transpileCSS e pathname minify =
     (case file_text e pathname of
        None \<Rightarrow> Inl (NotFound pathname)
      | Some sass \<Rightarrow> sass_compile e sass (canonicalize e pathname) (load e) minify)"

subsection \<open>\<open>transpileJS\<close>\<close>

definition transpileJS :: "env \<Rightarrow> string \<Rightarrow> string \<Rightarrow> bool \<Rightarrow> error + string" where
  "transpileJS e pathname root minify =
     (case file_text e pathname of
        None \<Rightarrow> Inl (NotFound pathname)
      | Some src \<Rightarrow>
          (case bun_build e pathname root minify of
             Inl err \<Rightarrow> Inl err
           | Inr output \<Rightarrow>
               if \<not> success output then Inl (TranspileFailed pathname)
               else if length (outputs output) \<noteq> 1 then Inl (OutputCount (length (outputs output)))
               else
                 (case outputs output of
                    [] \<Rightarrow> Inl (OutputCount 0)
                  | (kind, text) # others \<Rightarrow>
                      if kind \<noteq> EntryPoint then Inl (NotEntryPoint kind)
                      else
                        let transformed = removeExportsFromJS e text minify
                        in Inr (if minify then minifyJS e transformed else transformed))))"

section \<open>\<open>build.ts\<close>\<close>

text \<open>
  The script is kept in two revisions.  They differ in log lines, which the model leaves
  out, and in a call of \<open>convertJSToNonBlocking\<close>, a function that \<open>index.ts\<close> has
  commented out; the model has neither.  The configuration is taken as loaded by
  \<open>getConfig\<close>.
\<close>

record config =
  source :: string
  destination :: string
  clean :: bool
  css_minify :: bool
  html_minify :: bool
  html_minifyClasses :: bool
  html_reduceBlocking :: bool
  js_minify :: bool

definition importMapper :: "string \<Rightarrow> string \<Rightarrow> string" where
  "importMapper base src = (if startsWith src ''/'' then src else path_join base src)"

definition importDemapper :: "env \<Rightarrow> string \<Rightarrow> string \<Rightarrow> string" where
  "importDemapper e base src = path_relative (cwd e) base src"

text \<open>
  \<open>p.replace(/\.(s[ac]|c)ss$/, '.css')\<close> and \<open>p.replace(/\.tsx?$/, '.js')\<close>: the
  patterns are anchored at the end, so the match is the one listed ending that the
  path has (no two of them can end the same string), or none.
\<close>

definition replaceEnding :: "string list \<Rightarrow> string \<Rightarrow> string \<Rightarrow> string" where
  "replaceEnding endings new p =
     (case filter (endsWith p) endings of
        [] \<Rightarrow> p
      | ending # others \<Rightarrow> take (length p - length ending) p @ new)"

definition cssBuiltPath :: "string \<Rightarrow> string" where
  "cssBuiltPath cssPath = replaceEnding [''.sass'', ''.scss'', ''.css''] ''.css'' cssPath"

definition jsBuiltPath :: "string \<Rightarrow> string" where
  "jsBuiltPath jsPath = replaceEnding [''.ts'', ''.tsx''] ''.js'' jsPath"

text \<open>\<open>path.extname(file).match(/\.(html|s[ac]ss|tsx?)$/)\<close>, the files the copy loop leaves out.\<close>

definition notCopied :: "string \<Rightarrow> bool" where
  "notCopied file =
     (filter (endsWith (path_extname file)) [''.html'', ''.sass'', ''.scss'', ''.ts'', ''.tsx''] \<noteq> [])"

subsection \<open>The state of a build\<close>

text \<open>
  \<open>builtFiles\<close> is the object the script fills, as its properties in insertion order
  (a property assigned again keeps its place).  \<open>calls\<close> is not in the script: it
  records each call of a transform, with the arguments passed.
\<close>

datatype call = CallCSS string bool | CallJS string string bool

record bstate =
  builtFiles :: "(string \<times> string) list"
  currentCompile :: "string option"
  calls :: "call list"

text \<open>
  How a run ends early: through \<open>errorHandler\<close> (which prints \<open>currentCompile\<close> and
  the message and calls \<open>process.exit(1)\<close>), or with an exception nothing catches.
  Either way the process stops at that point.
\<close>

datatype halt = Handled error | Uncaught error

text \<open>
  \<open>key in builtFiles\<close> also holds for the properties every object inherits from
  \<open>Object.prototype\<close>.
\<close>

definition objectPrototypeKeys :: "string list" where
  "objectPrototypeKeys =
     [''constructor'', ''toString'', ''toLocaleString'', ''valueOf'', ''hasOwnProperty'',
      ''isPrototypeOf'', ''propertyIsEnumerable'', ''__defineGetter__'', ''__defineSetter__'',
      ''__lookupGetter__'', ''__lookupSetter__'', ''__proto__'']"

definition js_in :: "string \<Rightarrow> (string \<times> string) list \<Rightarrow> bool" where
  "js_in key obj = (map_of obj key \<noteq> None \<or> key \<in> set objectPrototypeKeys)"

fun forEach :: "('s \<Rightarrow> 'x \<Rightarrow> 'h + 's) \<Rightarrow> 's \<Rightarrow> 'x list \<Rightarrow> 'h + 's" where
  "forEach body s [] = Inr s"
| "forEach body s (x # xs) =
     (case body s x of
        Inl h \<Rightarrow> Inl h
      | Inr s' \<Rightarrow> forEach body s' xs)"

subsection \<open>One document\<close>

definition cssStep ::
  "env \<Rightarrow> config \<Rightarrow> string \<Rightarrow> bstate \<times> node list \<Rightarrow> string \<Rightarrow> halt \<times> bstate + bstate \<times> node list" where
  "cssStep e cfg basePath s cssPath =
     (let st = (fst s)\<lparr>currentCompile := Some cssPath\<rparr>;
          html = snd s;
          builtPath = cssBuiltPath cssPath;
          compiled =
            (if \<not> js_in builtPath (builtFiles st) then
               (let st' = st\<lparr>calls := calls st @ [CallCSS cssPath (css_minify cfg)]\<rparr>
                in case transpileCSS e cssPath (css_minify cfg) of
                     Inl err \<Rightarrow> Inl (Handled err, st')
                   | Inr css \<Rightarrow> Inr (st'\<lparr>builtFiles := AList.update builtPath css (builtFiles st')\<rparr>))
             else Inr st)
      in case compiled of
           Inl h \<Rightarrow> Inl h
         | Inr st' \<Rightarrow>
             Inr (st', replaceCSSImports html (importDemapper e basePath cssPath)
                         (importDemapper e basePath builtPath)))"

definition jsStep ::
  "env \<Rightarrow> config \<Rightarrow> string \<Rightarrow> bstate \<times> node list \<Rightarrow> string \<Rightarrow> halt \<times> bstate + bstate \<times> node list" where
  "jsStep e cfg basePath s jsPath =
     (let st = (fst s)\<lparr>currentCompile := Some jsPath\<rparr>;
          html = snd s;
          builtPath = jsBuiltPath jsPath;
          compiled =
            (if \<not> js_in builtPath (builtFiles st) then
               (let st' = st\<lparr>calls := calls st @ [CallJS jsPath (source cfg) (css_minify cfg)]\<rparr>
                in case transpileJS e jsPath (source cfg) (css_minify cfg) of
                     Inl err \<Rightarrow> Inl (Handled err, st')
                   | Inr js \<Rightarrow> Inr (st'\<lparr>builtFiles := AList.update builtPath js (builtFiles st')\<rparr>))
             else Inr st)
      in case compiled of
           Inl h \<Rightarrow> Inl h
         | Inr st' \<Rightarrow>
             Inr (st', replaceJSImports html (importDemapper e basePath jsPath)
                         (importDemapper e basePath builtPath)))"

text \<open>The end of the loop body: non-blocking conversion, serialization, minification.\<close>

definition emitDocument :: "env \<Rightarrow> config \<Rightarrow> string \<Rightarrow> bstate \<times> node list \<Rightarrow> halt \<times> bstate + bstate" where
  "emitDocument e cfg htmlPath s =
     (let st = (fst s)\<lparr>currentCompile := Some htmlPath\<rparr>;
          html = (if html_reduceBlocking cfg then convertCSSToNonBlocking (snd s) else snd s)
      in case serializeHTML e html of
           Inl err \<Rightarrow> Inl (Uncaught err, st)
         | Inr text \<Rightarrow>
             (let st' = st\<lparr>builtFiles := AList.update htmlPath text (builtFiles st)\<rparr>
              in if html_minify cfg then
                   (case minifyHTML e text of
                      Inl err \<Rightarrow> Inl (Uncaught err, st')
                    | Inr small \<Rightarrow> Inr (st'\<lparr>builtFiles := AList.update htmlPath small (builtFiles st')\<rparr>))
                 else Inr st'))"

text \<open>
  The body of \<open>for (const htmlPath of htmlFiles)\<close>.  Both import lists are taken
  from the document as loaded, before any reference is rewritten.
\<close>

definition processDocument :: "env \<Rightarrow> config \<Rightarrow> bstate \<Rightarrow> string \<Rightarrow> halt \<times> bstate + bstate" where
  "processDocument e cfg st0 htmlPath =
     (let st = st0\<lparr>currentCompile := Some htmlPath\<rparr>;
          basePath = path_dirname htmlPath
      in case getHTML e htmlPath of
           Inl err \<Rightarrow> Inl (Handled err, st)
         | Inr html \<Rightarrow>
             (case getCSSImports html of
                Inl err \<Rightarrow> Inl (Uncaught err, st)
              | Inr cssRefs \<Rightarrow>
                  (case getJSImports html of
                     Inl err \<Rightarrow> Inl (Uncaught err, st)
                   | Inr jsRefs \<Rightarrow>
                       (case forEach (cssStep e cfg basePath) (st, html) (map (importMapper basePath) cssRefs) of
                          Inl h \<Rightarrow> Inl h
                        | Inr s1 \<Rightarrow>
                            (case forEach (jsStep e cfg basePath) s1 (map (importMapper basePath) jsRefs) of
                               Inl h \<Rightarrow> Inl h
                             | Inr s2 \<Rightarrow> emitDocument e cfg htmlPath s2)))))"

definition initialState :: bstate where
  "initialState = \<lparr>builtFiles = [], currentCompile = None, calls = []\<rparr>"

definition processDocuments :: "env \<Rightarrow> config \<Rightarrow> string list \<Rightarrow> halt \<times> bstate + bstate" where
  "processDocuments e cfg htmlFiles = forEach (processDocument e cfg) initialState htmlFiles"

subsection \<open>Writing the destination\<close>

text \<open>
  The destination tree is a store of its own, from the destination path the script
  computes to the content written there: the build is modelled for a destination
  directory outside the source tree, so that nothing it writes is read back.
  \<open>Object.entries(builtFiles)\<close> is taken in insertion order (a key that is a
  canonical array index would come first; no path with an extension is one).
\<close>

type_synonym store = "string \<Rightarrow> string option"

definition destinationOf :: "env \<Rightarrow> config \<Rightarrow> string \<Rightarrow> string" where
  "destinationOf e cfg p = path_join (destination cfg) (path_relative (cwd e) (source cfg) p)"

definition unlinkStep :: "env \<Rightarrow> store \<Rightarrow> string \<Rightarrow> error \<times> store + store" where
  "unlinkStep e d file =
     (case fs_rejects e file of
        Some err \<Rightarrow> Inl (err, d)
      | None \<Rightarrow> Inr (d(file := None)))"

definition cleanDestination :: "env \<Rightarrow> config \<Rightarrow> store \<Rightarrow> error \<times> store + store" where
  "cleanDestination e cfg d =
     (if clean cfg then
        (if exists_dir e (destination cfg) then
           (case readdir_tree e (destination cfg) of
              Inl err \<Rightarrow> Inl (err, d)
            | Inr tree \<Rightarrow> forEach (unlinkStep e) d (getFilesRecursively (destination cfg) tree))
         else
           (case fs_rejects e (destination cfg) of
              Some err \<Rightarrow> Inl (err, d)
            | None \<Rightarrow> Inr d))
      else Inr d)"

definition writeStep :: "env \<Rightarrow> config \<Rightarrow> store \<Rightarrow> string \<times> string \<Rightarrow> error \<times> store + store" where
  "writeStep e cfg d entry =
     (let dst = destinationOf e cfg (fst entry)
      in case fs_rejects e (path_dirname dst) of
           Some err \<Rightarrow> Inl (err, d)
         | None \<Rightarrow>
             (case fs_rejects e dst of
                Some err \<Rightarrow> Inl (err, d)
              | None \<Rightarrow> Inr (d(dst \<mapsto> snd entry))))"

definition copyStep :: "env \<Rightarrow> config \<Rightarrow> store \<Rightarrow> string \<Rightarrow> error \<times> store + store" where
  "copyStep e cfg d file =
     (if \<not> notCopied file then
        (let dst = destinationOf e cfg file
         in case fs_rejects e (path_dirname dst) of
              Some err \<Rightarrow> Inl (err, d)
            | None \<Rightarrow>
                (case file_text e file of
                   None \<Rightarrow> Inl (NotFound file, d)
                 | Some content \<Rightarrow>
                     (case fs_rejects e dst of
                        Some err \<Rightarrow> Inl (err, d)
                      | None \<Rightarrow> Inr (d(dst \<mapsto> content)))))
      else Inr d)"

record outcome =
  halted :: "halt option"
  state :: bstate
  dest :: store

text \<open>What follows the document loop: cleaning, the write loop, the copy loop.\<close>

definition writeDestination :: "env \<Rightarrow> config \<Rightarrow> bstate \<Rightarrow> store \<Rightarrow> outcome" where
  "writeDestination e cfg st d0 =
     (case cleanDestination e cfg d0 of
        Inl (err, d) \<Rightarrow> \<lparr>halted = Some (Handled err), state = st, dest = d\<rparr>
      | Inr d1 \<Rightarrow>
          (case forEach (writeStep e cfg) d1 (builtFiles st) of
             Inl (err, d) \<Rightarrow> \<lparr>halted = Some (Handled err), state = st, dest = d\<rparr>
           | Inr d2 \<Rightarrow>
               (case readdir_tree e (source cfg) of
                  Inl err \<Rightarrow> \<lparr>halted = Some (Uncaught err), state = st, dest = d2\<rparr>
                | Inr tree \<Rightarrow>
                    (case forEach (copyStep e cfg) d2 (getFilesRecursively (source cfg) tree) of
                       Inl (err, d) \<Rightarrow> \<lparr>halted = Some (Handled err), state = st, dest = d\<rparr>
                     | Inr d3 \<Rightarrow> \<lparr>halted = None, state = st, dest = d3\<rparr>))))"

text \<open>
  The whole script, for a loaded configuration and the destination as it is found.
  When the document loop stops early the process has exited: nothing after the loop runs.
\<close>

definition build :: "env \<Rightarrow> config \<Rightarrow> store \<Rightarrow> outcome" where
  "build e cfg d0 =
     (case getFilesMatching e (source cfg) of
        Inl err \<Rightarrow> \<lparr>halted = Some (Handled err), state = initialState, dest = d0\<rparr>
      | Inr htmlFiles \<Rightarrow>
          (case processDocuments e cfg htmlFiles of
             Inl (h, st) \<Rightarrow> \<lparr>halted = Some h, state = st, dest = d0\<rparr>
           | Inr st \<Rightarrow> writeDestination e cfg st d0))"

text \<open>The output path a transform call computes for: the key under which its result is stored.\<close>

fun outputOf :: "call \<Rightarrow> string" where
  "outputOf (CallCSS cssPath minify) = cssBuiltPath cssPath"
| "outputOf (CallJS jsPath root minify) = jsBuiltPath jsPath"

text \<open>
  For stating what the document loop maintains: a step ends well when the state it
  returns satisfies \<open>P\<close>, or the state in which it stops the run satisfies \<open>Q\<close>.
  \<open>callsStored\<close> says that the calls recorded so far computed for different output
  paths, each of them a key of \<open>builtFiles\<close> by now.
\<close>

definition endsAsset ::
  "(bstate \<Rightarrow> bool) \<Rightarrow> (bstate \<Rightarrow> bool) \<Rightarrow> halt \<times> bstate + bstate \<times> node list \<Rightarrow> bool" where
  "endsAsset P Q r = (case r of Inl h \<Rightarrow> Q (snd h) | Inr s \<Rightarrow> P (fst s))"

definition ends :: "(bstate \<Rightarrow> bool) \<Rightarrow> (bstate \<Rightarrow> bool) \<Rightarrow> halt \<times> bstate + bstate \<Rightarrow> bool" where
  "ends P Q r = (case r of Inl h \<Rightarrow> Q (snd h) | Inr st \<Rightarrow> P st)"

definition callsStored :: "bstate \<Rightarrow> bool" where
  "callsStored st =
     (distinct (map outputOf (calls st))
      \<and> list_all (\<lambda>c. js_in (outputOf c) (builtFiles st)) (calls st))"

section \<open>The specification's wording, and concrete inputs\<close>

text \<open>
  The class tokens as the specification words them: the pieces of the attribute
  between runs of whitespace (space, tab, line feed, form feed, carriage return).
\<close>

definition isWhitespace :: "char \<Rightarrow> bool" where
  "isWhitespace c = (c \<in> set [CHR '' '', CHR 0x09, CHR 0x0A, CHR 0x0C, CHR 0x0D])"

fun splitWhere :: "(char \<Rightarrow> bool) \<Rightarrow> string \<Rightarrow> string list" where
  "splitWhere sep [] = [[]]"
| "splitWhere sep (x # xs) =
     (if sep x then [] # splitWhere sep xs
      else (case splitWhere sep xs of
              [] \<Rightarrow> [[x]]
            | w # ws \<Rightarrow> (x # w) # ws))"

definition spec_whitespace_tokens :: "string \<Rightarrow> string list" where
  "spec_whitespace_tokens cls = filter (\<lambda>w. w \<noteq> []) (splitWhere isWhitespace cls)"


text \<open>
  A world with no files, in which every library succeeds trivially; the worlds of the
  examples below are updates of it.  Its serializer prints tags and attributes.
\<close>

fun renderAttribs :: "attribs \<Rightarrow> string" where
  "renderAttribs [] = []"
| "renderAttribs ((k, v) # a) =
     '' '' @ k @ (case v of None \<Rightarrow> [] | Some s \<Rightarrow> ''='' @ s) @ renderAttribs a"

fun render :: "node \<Rightarrow> string" where
  "render (Element nm a cs) = ''<'' @ nm @ renderAttribs a @ ''>'' @ concat (map render cs) @ ''</'' @ nm @ ''>''"
| "render (Text s) = s"
| "render (Comment s) = ''<!--'' @ s @ ''-->''"
| "render (Directive s) = ''<'' @ s @ ''>''"

definition blankEnv :: env where
  "blankEnv =
     \<lparr>cwd = ''/work'',
      file_text = (\<lambda>p. None),
      is_directory = (\<lambda>p. False),
      readdir_tree = (\<lambda>p. Inr []),
      new_URL = (\<lambda>ref base. base),
      parseDocument = (\<lambda>text. []),
      sass_compile = (\<lambda>src canon ld minify. Inr src),
      bun_build = (\<lambda>p root minify. Inr \<lparr>success = True, outputs = [(EntryPoint, p)]\<rparr>),
      removeExportsFromJS = (\<lambda>text minify. text),
      minifyJS = (\<lambda>text. text),
      serializeHTML = (\<lambda>doc. Inr (concat (map render doc))),
      minifyHTML = (\<lambda>text. Inr text),
      micromatch = (\<lambda>p. endsWith p ''.html''),
      exists_dir = (\<lambda>p. False),
      fs_rejects = (\<lambda>p. None)\<rparr>"

text \<open>A world with the script \<open>src/app.ts\<close>, whose bundle is two artifacts.\<close>

definition twoArtifactsEnv :: env where
  "twoArtifactsEnv =
     blankEnv
       \<lparr>file_text := (\<lambda>p. if p = ''src/app.ts'' then Some ''export const a = 1'' else None),
        bun_build := (\<lambda>p root minify.
           Inr \<lparr>success = True, outputs = [(EntryPoint, ''const a = 1''), (Chunk, ''c'')]\<rparr>)\<rparr>"

text \<open>The same script, whose bundle is one artifact that is not an entry point.\<close>

definition chunkOnlyEnv :: env where
  "chunkOnlyEnv =
     twoArtifactsEnv
       \<lparr>bun_build := (\<lambda>p root minify. Inr \<lparr>success = True, outputs = [(Chunk, ''c'')]\<rparr>)\<rparr>"

text \<open>The same script, whose bundle is one entry point; the export remover marks its output.\<close>

definition oneEntryPointEnv :: env where
  "oneEntryPointEnv =
     twoArtifactsEnv
       \<lparr>bun_build := (\<lambda>p root minify.
           Inr \<lparr>success = True, outputs = [(EntryPoint, ''const a = 1; export { a }'')]\<rparr>),
        removeExportsFromJS := (\<lambda>text minify. ''const a = 1;''),
        minifyJS := (\<lambda>text. ''const a=1'')\<rparr>"



definition defaultConfig :: config where
  "defaultConfig =
     \<lparr>source = ''src'', destination = ''dist'', clean = False, css_minify = True,
      html_minify = True, html_minifyClasses = True, html_reduceBlocking = True, js_minify = True\<rparr>"

text \<open>The document \<open><link rel="stylesheet" href="s.css">\<close>.\<close>

definition oneLinkDoc :: "node list" where
  "oneLinkDoc = [Element ''link'' [(''rel'', Some ''stylesheet''), (''href'', Some ''s.css'')] []]"

text \<open>
  A directory \<open>d\<close> that holds \<open>main.scss\<close>, \<open>x.scss\<close> and the partial \<open>_x.scss\<close>.
  \<open>new_URL\<close> is given at the three references the example resolves: \<open>x\<close> and
  \<open>x.scss\<close> against \<open>file:///d/main.scss\<close>, and \<open>d/main.scss\<close> against \<open>file:///\<close>.
\<close>

definition partialsEnv :: env where
  "partialsEnv =
     blankEnv
       \<lparr>file_text := (\<lambda>p. if p = ''d/main.scss'' then Some ''m{n:o}''
                          else if p = ''d/x.scss'' then Some ''a{b:c}''
                          else if p = ''d/_x.scss'' then Some ''p{q:r}'' else None),
        new_URL := (\<lambda>ref base.
           if ref = ''x'' \<and> base = ''/d/main.scss'' then ''/d/x''
           else if ref = ''x.scss'' \<and> base = ''/d/main.scss'' then ''/d/x.scss''
           else if ref = ''d/main.scss'' \<and> base = ''/'' then ''/d/main.scss''
           else base)\<rparr>"


text \<open>
  One document \<open>src/index.html\<close> with the script \<open>app.ts\<close>, built with the style
  option \<open>css.minify\<close> off and the script option \<open>js.minify\<close> on.
\<close>

definition scriptEnv :: env where
  "scriptEnv =
     blankEnv
       \<lparr>file_text := (\<lambda>p. if p = ''src/index.html'' then Some ''<script src=app.ts></script>''
                          else if p = ''src/app.ts'' then Some ''export const a = 1'' else None),
        readdir_tree := (\<lambda>p. if p = ''src''
                               then Inr [(''index.html'', FileEntry), (''app.ts'', FileEntry)]
                               else Inr []),
        parseDocument := (\<lambda>text. [Element ''script'' [(''src'', Some ''app.ts'')] []])\<rparr>"

definition scriptConfig :: config where
  "scriptConfig = defaultConfig\<lparr>css_minify := False, js_minify := True\<rparr>"

text \<open>
  Two documents: \<open>src/a.html\<close> links the style sheet \<open>x.scss\<close>, \<open>src/b.html\<close> links
  \<open>x.css\<close>.  Both files exist, and both references have the output path \<open>src/x.css\<close>.
  The style compiler of this world marks its output.
\<close>

definition sharedOutputEnv :: env where
  "sharedOutputEnv =
     blankEnv
       \<lparr>file_text := (\<lambda>p. if p = ''src/a.html'' then Some ''a''
                          else if p = ''src/b.html'' then Some ''b''
                          else if p = ''src/x.scss'' then Some ''from-scss''
                          else if p = ''src/x.css'' then Some ''from-css'' else None),
        readdir_tree := (\<lambda>p. if p = ''src''
                               then Inr [(''a.html'', FileEntry), (''b.html'', FileEntry),
                                         (''x.css'', FileEntry), (''x.scss'', FileEntry)]
                               else Inr []),
        parseDocument := (\<lambda>text.
           if text = ''a''
             then [Element ''link'' [(''rel'', Some ''stylesheet''), (''href'', Some ''x.scss'')] []]
           else [Element ''link'' [(''rel'', Some ''stylesheet''), (''href'', Some ''x.css'')] []]),
        sass_compile := (\<lambda>src canon ld minify. Inr (''compiled:'' @ src))\<rparr>"

text \<open>
  Two documents: \<open>src/a.html\<close> links, as a style sheet, the file \<open>b.html\<close>, which is
  also the second document (its text is valid style source).
\<close>

definition linkToDocumentEnv :: env where
  "linkToDocumentEnv =
     blankEnv
       \<lparr>file_text := (\<lambda>p. if p = ''src/a.html'' then Some ''a''
                          else if p = ''src/b.html'' then Some ''p{color:red}'' else None),
        readdir_tree := (\<lambda>p. if p = ''src''
                               then Inr [(''a.html'', FileEntry), (''b.html'', FileEntry)]
                               else Inr []),
        parseDocument := (\<lambda>text.
           if text = ''a''
             then [Element ''link'' [(''rel'', Some ''stylesheet''), (''href'', Some ''b.html'')] []]
           else [Text text]),
        sass_compile := (\<lambda>src canon ld minify. Inr (''compiled:'' @ src))\<rparr>"

definition plainConfig :: config where
  "plainConfig = defaultConfig\<lparr>html_reduceBlocking := False\<rparr>"

text \<open>
  The state and the document with which the build of the two documents above reaches the
  reference of the second document.
\<close>

definition afterFirstDocument :: bstate where
  "afterFirstDocument =
     \<lparr>builtFiles = [(''src/x.css'', ''compiled:from-scss''),
                    (''src/a.html'', ''<link rel=stylesheet href=x.css></link>'')],
      currentCompile = Some ''src/b.html'',
      calls = [CallCSS ''src/x.scss'' True]\<rparr>"

definition secondDocument :: "node list" where
  "secondDocument = [Element ''link'' [(''rel'', Some ''stylesheet''), (''href'', Some ''x.css'')] []]"


section \<open>Properties\<close>

subsection \<open>Splitting and joining\<close>


lemma split_not_Nil: "split c s \<noteq> []"
  by (induction s) (auto split: list.splits)

lemma split_no_sep: "w \<in> set (split c s) \<Longrightarrow> c \<notin> set w"
  by (induction s arbitrary: w) (auto split: list.splits if_splits)

lemma split_append_token: "c \<notin> set w \<Longrightarrow> split c (w @ c # s) = w # split c s"
  by (induction w) (auto split: list.splits)

lemma split_token: "c \<notin> set w \<Longrightarrow> split c w = [w]"
  by (induction w) (auto split: list.splits)

lemma split_join:
  "ws \<noteq> [] \<Longrightarrow> \<forall>w\<in>set ws. c \<notin> set w \<Longrightarrow> split c (join [c] ws) = ws"
proof (induction "[c]" ws rule: join.induct)
  case 1
  then show ?case by simp
next
  case (2 w)
  then show ?case by (simp add: split_token)
next
  case (3 w v ws)
  then show ?case by (simp add: split_append_token)
qed

subsection \<open>\<open>uniq\<close>\<close>

lemma set_foldl_set_add: "set (foldl set_add acc xs) = set acc \<union> set xs"
  by (induction xs arbitrary: acc) (auto simp: set_add_def)

lemma distinct_foldl_set_add: "distinct acc \<Longrightarrow> distinct (foldl set_add acc xs)"
  by (induction xs arbitrary: acc) (auto simp: set_add_def)

lemma foldl_set_add_distinct: "distinct (acc @ xs) \<Longrightarrow> foldl set_add acc xs = acc @ xs"
  by (induction xs arbitrary: acc) (auto simp: set_add_def)

lemma foldl_set_add_member:
  "x \<in> set acc \<Longrightarrow> foldl set_add acc xs = foldl set_add acc (filter (\<lambda>y. y \<noteq> x) xs)"
  by (induction xs arbitrary: acc) (auto simp: set_add_def)

lemma foldl_set_add_Cons:
  "x \<notin> set xs \<Longrightarrow> foldl set_add (x # acc) xs = x # foldl set_add acc xs"
  by (induction xs arbitrary: acc) (auto simp: set_add_def)

lemma uniq_Cons: "uniq (x # xs) = x # uniq (filter (\<lambda>y. y \<noteq> x) xs)"
proof -
  have "uniq (x # xs) = foldl set_add [x] xs"
    by (simp add: uniq_def set_add_def)
  also have "\<dots> = foldl set_add [x] (filter (\<lambda>y. y \<noteq> x) xs)"
    using foldl_set_add_member [of x "[x]" xs] by simp
  also have "\<dots> = x # foldl set_add [] (filter (\<lambda>y. y \<noteq> x) xs)"
    by (rule foldl_set_add_Cons) simp
  finally show ?thesis by (simp add: uniq_def)
qed

lemma set_uniq: "set (uniq xs) = set xs"
  by (simp add: uniq_def set_foldl_set_add)

lemma distinct_uniq: "distinct (uniq xs)"
  by (simp add: uniq_def distinct_foldl_set_add)

lemma uniq_idem: "uniq (uniq xs) = uniq xs"
  using foldl_set_add_distinct [of "[]" "uniq xs"] distinct_uniq [of xs]
  by (simp add: uniq_def)

subsection \<open>Class normalization\<close>

lemma normalizeClass_tokens: "split CHR '' '' (normalizeClass cls) = uniq (split CHR '' '' cls)"
proof -
  have ne: "uniq (split CHR '' '' cls) \<noteq> []"
    using set_uniq [of "split CHR '' '' cls"] split_not_Nil [of "CHR '' ''" cls] by auto
  have ns: "\<forall>w\<in>set (uniq (split CHR '' '' cls)). CHR '' '' \<notin> set w"
    using split_no_sep [of _ "CHR '' ''" cls] by (simp add: set_uniq)
  show ?thesis
    unfolding normalizeClass_def using split_join [OF ne ns] by simp
qed

lemma normalizeClass_idem: "normalizeClass (normalizeClass cls) = normalizeClass cls"
proof -
  have "normalizeClass (normalizeClass cls) = join '' '' (uniq (split CHR '' '' (normalizeClass cls)))"
    by (simp add: normalizeClass_def)
  also have "\<dots> = join '' '' (uniq (uniq (split CHR '' '' cls)))"
    by (simp add: normalizeClass_tokens)
  also have "\<dots> = normalizeClass cls"
    by (simp add: uniq_idem normalizeClass_def)
  finally show ?thesis .
qed

lemma attrib_setAttrib: "attrib (setAttrib k v a) k' = (if k' = k then Some v else attrib a k')"
  by (simp add: attrib_def setAttrib_def update_conv')

lemma setAttrib_twice: "setAttrib k v (setAttrib k v' a) = setAttrib k v a"
  by (simp add: setAttrib_def)

lemma normalizeClassAttribs_idem:
  "normalizeClassAttribs (normalizeClassAttribs a) = normalizeClassAttribs a"
  by (auto simp: normalizeClassAttribs_def attrib_setAttrib normalizeClass_idem setAttrib_twice
      split: option.splits)

lemma attrib_normalizeClassAttribs:
  "attrib (normalizeClassAttribs a) ''class'' = map_option normalizeClass (attrib a ''class'')"
  by (auto simp: normalizeClassAttribs_def attrib_setAttrib split: option.splits)

lemma forEachFound_class_idem:
  "forEachFound (\<lambda>n. hasAttrib n ''class'') normalizeClassAttribs
     (forEachFound (\<lambda>n. hasAttrib n ''class'') normalizeClassAttribs n)
   = forEachFound (\<lambda>n. hasAttrib n ''class'') normalizeClassAttribs n"
  by (induction n) (auto simp: hasAttrib_def normalizeClassAttribs_idem attrib_normalizeClassAttribs)

lemma normalizeClasses_idem: "normalizeClasses (normalizeClasses doc) = normalizeClasses doc"
  by (simp add: normalizeClasses_def forEachFound_class_idem)

lemma findAllNode_normalized:
  "map (\<lambda>m. node_attrib m ''class'')
     (findAllNode (\<lambda>m. hasAttrib m ''class'')
        (forEachFound (\<lambda>m. hasAttrib m ''class'') normalizeClassAttribs n))
   = map (\<lambda>m. map_option normalizeClass (node_attrib m ''class''))
       (findAllNode (\<lambda>m. hasAttrib m ''class'') n)"
proof (induction n)
  case (Element nm a cs)
  then show ?case
    by (auto simp: hasAttrib_def attrib_normalizeClassAttribs map_concat comp_def
        intro!: arg_cong [where f = concat])
qed simp_all

lemma findAll_normalized:
  "map (\<lambda>m. node_attrib m ''class'') (findAll (\<lambda>m. hasAttrib m ''class'') (normalizeClasses doc))
   = map (\<lambda>m. map_option normalizeClass (node_attrib m ''class''))
       (findAll (\<lambda>m. hasAttrib m ''class'') doc)"
  by (simp add: findAll_def normalizeClasses_def map_concat comp_def findAllNode_normalized)

text \<open>
  Claim C7, as amended.  The normalization pass of \<open>getHTML\<close> rewrites the class
  attribute of every element that carries one, in place, to its tokens with the later
  copies of each token removed and the first occurrences kept in their order
  (``foo bar foo baz'' becomes ``foo bar baz''); running it twice gives what running it
  once gives.  The tokens are the pieces between single space characters, as
  \<open>split(' ')\<close> cuts them: an empty piece between two adjacent spaces is a token, and
  no other whitespace separates tokens.
\<close>

theorem class_normalization_dedups_space_tokens:
  "map (\<lambda>m. node_attrib m ''class'') (findAll (\<lambda>m. hasAttrib m ''class'') (normalizeClasses doc))
     = map (\<lambda>m. map_option normalizeClass (node_attrib m ''class''))
         (findAll (\<lambda>m. hasAttrib m ''class'') doc)
   \<and> split CHR '' '' (normalizeClass cls) = uniq (split CHR '' '' cls)
   \<and> uniq ([] :: string list) = []
   \<and> uniq (t # ts) = t # uniq (filter (\<lambda>u. u \<noteq> t) ts)
   \<and> distinct (uniq ts) \<and> set (uniq ts) = set ts
   \<and> normalizeClass ''foo bar foo baz'' = ''foo bar baz''
   \<and> normalizeClass (normalizeClass cls) = normalizeClass cls
   \<and> normalizeClasses (normalizeClasses doc) = normalizeClasses doc"
proof -
  have example: "normalizeClass ''foo bar foo baz'' = ''foo bar baz''"
    by (simp add: normalizeClass_def uniq_def set_add_def)
  have empty: "uniq ([] :: string list) = []"
    by (simp add: uniq_def)
  show ?thesis
    using findAll_normalized [of doc] normalizeClass_tokens [of cls] uniq_Cons [of t ts]
      distinct_uniq [of ts] set_uniq [of ts] normalizeClass_idem [of cls]
      normalizeClasses_idem [of doc] example empty
    by blast
qed

text \<open>
  Claim C7 as stated fails on a class attribute whose tokens are separated by a tab:
  the attribute \<open>foo<TAB>foo\<close> is left as it is, with the token \<open>foo\<close> twice among
  its whitespace-separated tokens.
\<close>

theorem class_normalization_tab_counterexample:
  "normalizeClass (''foo'' @ [CHR 0x09] @ ''foo'') = ''foo'' @ [CHR 0x09] @ ''foo''
   \<and> spec_whitespace_tokens (normalizeClass (''foo'' @ [CHR 0x09] @ ''foo'')) = [''foo'', ''foo'']
   \<and> \<not> distinct (spec_whitespace_tokens (normalizeClass (''foo'' @ [CHR 0x09] @ ''foo'')))"
  by (simp add: normalizeClass_def uniq_def set_add_def spec_whitespace_tokens_def isWhitespace_def)

subsection \<open>\<open>transpileJS\<close>\<close>

text \<open>
  Claim C8.  Once the bundler has answered, \<open>transpileJS\<close> fails whenever the bundle
  is not exactly one artifact of kind entry-point: with the error that reports the number
  of outputs when that number is not one, and with the error that reports the kind when
  the single output is of another kind (provided the entry file exists and the bundler
  reported success, which are checked first and fail too).  It returns a text only when
  the bundle is exactly one entry-point artifact, and then it returns that artifact's
  text with the exports removed, minified if asked.
\<close>

theorem transpileJS_needs_one_entry_point:
  assumes "bun_build e pathname root minify = Inr output"
  shows
    "((length (outputs output) \<noteq> 1 \<or> (\<exists>kind text. outputs output = [(kind, text)] \<and> kind \<noteq> EntryPoint))
        \<longrightarrow> (\<exists>err. transpileJS e pathname root minify = Inl err))
     \<and> (file_text e pathname \<noteq> None \<and> success output \<and> length (outputs output) \<noteq> 1
        \<longrightarrow> transpileJS e pathname root minify = Inl (OutputCount (length (outputs output))))
     \<and> (\<forall>kind text. file_text e pathname \<noteq> None \<and> success output \<and> outputs output = [(kind, text)]
          \<and> kind \<noteq> EntryPoint
        \<longrightarrow> transpileJS e pathname root minify = Inl (NotEntryPoint kind))
     \<and> (\<forall>js. transpileJS e pathname root minify = Inr js
        \<longrightarrow> (\<exists>text. outputs output = [(EntryPoint, text)]
               \<and> js = (if minify then minifyJS e (removeExportsFromJS e text minify)
                       else removeExportsFromJS e text minify)))
     \<and> (\<forall>text. file_text e pathname \<noteq> None \<and> success output \<and> outputs output = [(EntryPoint, text)]
        \<longrightarrow> transpileJS e pathname root minify
              = Inr (if minify then minifyJS e (removeExportsFromJS e text minify)
                     else removeExportsFromJS e text minify))"
  using assms
  by (cases "outputs output"; cases "file_text e pathname")
     (auto simp: transpileJS_def Let_def split: list.splits if_splits)

theorem transpileJS_needs_one_entry_point_witness:
  "bun_build twoArtifactsEnv ''src/app.ts'' ''src'' True
     = Inr \<lparr>success = True, outputs = [(EntryPoint, ''const a = 1''), (Chunk, ''c'')]\<rparr>
   \<and> transpileJS twoArtifactsEnv ''src/app.ts'' ''src'' True = Inl (OutputCount 2)
   \<and> bun_build chunkOnlyEnv ''src/app.ts'' ''src'' True
     = Inr \<lparr>success = True, outputs = [(Chunk, ''c'')]\<rparr>
   \<and> transpileJS chunkOnlyEnv ''src/app.ts'' ''src'' True = Inl (NotEntryPoint Chunk)
   \<and> bun_build oneEntryPointEnv ''src/app.ts'' ''src'' True
     = Inr \<lparr>success = True, outputs = [(EntryPoint, ''const a = 1; export { a }'')]\<rparr>
   \<and> transpileJS oneEntryPointEnv ''src/app.ts'' ''src'' True = Inr ''const a=1''"
proof -
  have b2: "bun_build twoArtifactsEnv ''src/app.ts'' ''src'' True
     = Inr \<lparr>success = True, outputs = [(EntryPoint, ''const a = 1''), (Chunk, ''c'')]\<rparr>"
    by (simp add: twoArtifactsEnv_def blankEnv_def)
  have f2: "file_text twoArtifactsEnv ''src/app.ts'' \<noteq> None"
    by (simp add: twoArtifactsEnv_def blankEnv_def)
  have o2: "success \<lparr>success = True, outputs = [(EntryPoint, ''const a = 1''), (Chunk, ''c'')]\<rparr>
      \<and> length (outputs \<lparr>success = True, outputs = [(EntryPoint, ''const a = 1''), (Chunk, ''c'')]\<rparr>)
        \<noteq> 1
      \<and> length (outputs \<lparr>success = True, outputs = [(EntryPoint, ''const a = 1''), (Chunk, ''c'')]\<rparr>)
        = 2"
    by simp
  have "transpileJS twoArtifactsEnv ''src/app.ts'' ''src'' True
      = Inl (OutputCount (length (outputs \<lparr>success = True,
                                               outputs = [(EntryPoint, ''const a = 1''), (Chunk, ''c'')]\<rparr>)))"
    using transpileJS_needs_one_entry_point [OF b2] f2 o2 by blast
  then have r2: "transpileJS twoArtifactsEnv ''src/app.ts'' ''src'' True = Inl (OutputCount 2)"
    using o2 by simp
  have bc: "bun_build chunkOnlyEnv ''src/app.ts'' ''src'' True
     = Inr \<lparr>success = True, outputs = [(Chunk, ''c'')]\<rparr>"
    by (simp add: chunkOnlyEnv_def twoArtifactsEnv_def blankEnv_def)
  have fc: "file_text chunkOnlyEnv ''src/app.ts'' \<noteq> None"
    by (simp add: chunkOnlyEnv_def twoArtifactsEnv_def blankEnv_def)
  have oc: "success \<lparr>success = True, outputs = [(Chunk, ''c'')]\<rparr>
      \<and> outputs \<lparr>success = True, outputs = [(Chunk, ''c'')]\<rparr> = [(Chunk, ''c'')]
      \<and> Chunk \<noteq> EntryPoint"
    by simp
  have rc: "transpileJS chunkOnlyEnv ''src/app.ts'' ''src'' True = Inl (NotEntryPoint Chunk)"
    using transpileJS_needs_one_entry_point [OF bc] fc oc by blast
  have b1: "bun_build oneEntryPointEnv ''src/app.ts'' ''src'' True
     = Inr \<lparr>success = True, outputs = [(EntryPoint, ''const a = 1; export { a }'')]\<rparr>"
    by (simp add: oneEntryPointEnv_def twoArtifactsEnv_def blankEnv_def)
  have f1: "file_text oneEntryPointEnv ''src/app.ts'' \<noteq> None"
    by (simp add: oneEntryPointEnv_def twoArtifactsEnv_def blankEnv_def)
  have m1: "minifyJS oneEntryPointEnv (removeExportsFromJS oneEntryPointEnv ''const a = 1; export { a }'' True)
     = ''const a=1''"
    by (simp add: oneEntryPointEnv_def twoArtifactsEnv_def blankEnv_def)
  have o1: "success \<lparr>success = True, outputs = [(EntryPoint, ''const a = 1; export { a }'')]\<rparr>
      \<and> outputs \<lparr>success = True, outputs = [(EntryPoint, ''const a = 1; export { a }'')]\<rparr>
        = [(EntryPoint, ''const a = 1; export { a }'')]"
    by simp
  have "transpileJS oneEntryPointEnv ''src/app.ts'' ''src'' True
      = Inr (if True
             then minifyJS oneEntryPointEnv
                    (removeExportsFromJS oneEntryPointEnv ''const a = 1; export { a }'' True)
             else removeExportsFromJS oneEntryPointEnv ''const a = 1; export { a }'' True)"
    using transpileJS_needs_one_entry_point [OF b1] f1 o1 by blast
  then have r1: "transpileJS oneEntryPointEnv ''src/app.ts'' ''src'' True = Inr ''const a=1''"
    by (simp only: m1 if_True)
  show ?thesis
    using b2 r2 bc rc b1 r1 by blast
qed

subsection \<open>Reference rewriting\<close>
















subsection \<open>Non-blocking conversion\<close>

lemma nonBlockingBody_at:
  "nonBlockingBody (before @ n # after) (length before)
   = before @ [noscriptFallback (node_attrib n ''href''), preloadLink (node_attrib n ''href'')] @ after"
  by (simp add: nonBlockingBody_def DomUtils_append_def DomUtils_removeElement_def Let_def)

lemma convert_link:
  "isStylesheetLink n \<Longrightarrow>
   convertCSSToNonBlocking (n # ns)
   = noscriptFallback (node_attrib n ''href'') # preloadLink (node_attrib n ''href'')
     # convertCSSToNonBlocking ns"
  using nonBlockingBody_at [of "[]" n ns] by simp

lemma convert_other:
  "\<not> isStylesheetLink n \<Longrightarrow>
   convertCSSToNonBlocking (n # ns)
   = (case n of Element nm a cs \<Rightarrow> Element nm a (convertCSSToNonBlocking cs) | other \<Rightarrow> other)
     # convertCSSToNonBlocking ns"
  by simp

lemma convert_append:
  "convertCSSToNonBlocking (xs @ ys) = convertCSSToNonBlocking xs @ convertCSSToNonBlocking ys"
proof (induction xs)
  case Nil
  show ?case by simp
next
  case (Cons x xs)
  show ?case
  proof (cases "isStylesheetLink x")
    case True
    then show ?thesis using Cons by (simp add: convert_link del: convertCSSToNonBlocking.simps)
  next
    case False
    then show ?thesis using Cons by (simp add: convert_other del: convertCSSToNonBlocking.simps)
  qed
qed

text \<open>
  Claim C3, as amended.  The loop body of \<open>convertCSSToNonBlocking\<close> puts exactly two
  nodes in the place of a stylesheet link, wherever it stands among its siblings, and
  removes the link.  The preload link with the inline onload handler is appended first and
  the no-script element that wraps a fallback stylesheet link second, each directly behind
  the original, so the one appended later stands nearer to it: in the document the
  no-script fallback comes first and the preload link second.  Both have the \<open>href\<close> of
  the original.  Over a whole children array the conversion does this to each stylesheet
  link, and enters every other element.
\<close>

theorem nonblocking_conversion_noscript_then_preload:
  "DomUtils_append (before @ n # after) (length before) preload = before @ n # preload # after
   \<and> DomUtils_append (before @ n # preload # after) (length before) noscript
     = before @ n # noscript # preload # after
   \<and> DomUtils_removeElement (before @ n # noscript # preload # after) (length before)
     = before @ noscript # preload # after
   \<and> nonBlockingBody (before @ n # after) (length before)
     = before @ [noscriptFallback (node_attrib n ''href''), preloadLink (node_attrib n ''href'')] @ after
   \<and> (isStylesheetLink n \<longrightarrow>
        convertCSSToNonBlocking (before @ n # after)
        = convertCSSToNonBlocking before
          @ [noscriptFallback (node_attrib n ''href''), preloadLink (node_attrib n ''href'')]
          @ convertCSSToNonBlocking after)
   \<and> (\<not> isStylesheetLink (Element nm a cs) \<longrightarrow>
        convertCSSToNonBlocking (before @ Element nm a cs # after)
        = convertCSSToNonBlocking before @ [Element nm a (convertCSSToNonBlocking cs)]
          @ convertCSSToNonBlocking after)
   \<and> node_attrib (preloadLink h) ''href'' = h
   \<and> node_attrib (preloadLink h) ''rel'' = Some ''preload''
   \<and> node_attrib (preloadLink h) ''onload'' = Some ''this.onload=null;this.rel=`stylesheet`''
   \<and> noscriptFallback h
     = Element ''noscript'' [] [Element ''link'' [(''rel'', Some ''stylesheet''), (''href'', h)] []]"
proof -
  have 1: "isStylesheetLink n \<Longrightarrow>
        convertCSSToNonBlocking (before @ n # after)
        = convertCSSToNonBlocking before
          @ [noscriptFallback (node_attrib n ''href''), preloadLink (node_attrib n ''href'')]
          @ convertCSSToNonBlocking after"
    by (simp add: convert_append convert_link del: convertCSSToNonBlocking.simps)
  have 2: "\<not> isStylesheetLink (Element nm a cs) \<Longrightarrow>
        convertCSSToNonBlocking (before @ Element nm a cs # after)
        = convertCSSToNonBlocking before @ [Element nm a (convertCSSToNonBlocking cs)]
          @ convertCSSToNonBlocking after"
    by (simp add: convert_append convert_other del: convertCSSToNonBlocking.simps)
  have 3: "node_attrib (preloadLink h) ''href'' = h
      \<and> node_attrib (preloadLink h) ''rel'' = Some ''preload''
      \<and> node_attrib (preloadLink h) ''onload'' = Some ''this.onload=null;this.rel=`stylesheet`''"
    by (simp add: preloadLink_def attrib_def)
  have 4: "DomUtils_append (before @ n # after) (length before) preload = before @ n # preload # after
      \<and> DomUtils_append (before @ n # preload # after) (length before) noscript
        = before @ n # noscript # preload # after
      \<and> DomUtils_removeElement (before @ n # noscript # preload # after) (length before)
        = before @ noscript # preload # after"
    by (simp add: DomUtils_append_def DomUtils_removeElement_def)
  have 5: "noscriptFallback h
     = Element ''noscript'' [] [Element ''link'' [(''rel'', Some ''stylesheet''), (''href'', h)] []]"
    by (simp add: noscriptFallback_def)
  show ?thesis
    using nonBlockingBody_at [of before n after] 1 2 3 4 5 by blast
qed

theorem nonblocking_conversion_noscript_then_preload_witness:
  "isStylesheetLink (Element ''link'' [(''rel'', Some ''stylesheet''), (''href'', Some ''s.css'')] [])
   \<and> \<not> isStylesheetLink (Element ''head'' [] oneLinkDoc)
   \<and> convertCSSToNonBlocking [Text ''a'', Element ''head'' [] oneLinkDoc]
     = [Text ''a'',
        Element ''head'' [] [noscriptFallback (Some ''s.css''), preloadLink (Some ''s.css'')]]"
proof -
  have l: "isStylesheetLink (Element ''link'' [(''rel'', Some ''stylesheet''), (''href'', Some ''s.css'')] [])"
    by (simp add: attrib_def)
  have h: "\<not> isStylesheetLink (Element ''head'' [] oneLinkDoc)"
    by simp
  have t: "convertCSSToNonBlocking [Text ''a''] = [Text ''a'']"
    by simp
  show ?thesis
    using nonblocking_conversion_noscript_then_preload
        [of "[]" "Element ''link'' [(''rel'', Some ''stylesheet''), (''href'', Some ''s.css'')] []" "[]"
            "Text ''a''" "Text ''a''" "''head''" "[]" oneLinkDoc]
      nonblocking_conversion_noscript_then_preload
        [of "[Text ''a'']" "Text ''a''" "[]" "Text ''a''" "Text ''a''" "''head''" "[]" oneLinkDoc]
      l h t
    by (simp add: oneLinkDoc_def attrib_def convertCSSToNonBlocking.simps(1)
        del: convertCSSToNonBlocking.simps(2))
qed

text \<open>
  Claim C3 as stated fails on the document \<open><link rel="stylesheet" href="s.css">\<close>: the
  two nodes that replace the link are the no-script fallback first and the preload link
  second, not the other way round.
\<close>

theorem nonblocking_conversion_order_counterexample:
  "convertCSSToNonBlocking oneLinkDoc = [noscriptFallback (Some ''s.css''), preloadLink (Some ''s.css'')]
   \<and> convertCSSToNonBlocking oneLinkDoc \<noteq> [preloadLink (Some ''s.css''), noscriptFallback (Some ''s.css'')]"
  by (simp add: oneLinkDoc_def attrib_def nonBlockingBody_def DomUtils_append_def
      DomUtils_removeElement_def preloadLink_def noscriptFallback_def)

subsection \<open>Style import resolution\<close>

lemma load_cases:
  "load e url =
     (case file_text e (drop 1 url) of
        Some contents \<Rightarrow> Inr (contents, ''scss'')
      | None \<Rightarrow>
          (case file_text e
                  (if isDir e (drop 1 url) then path_join (drop 1 url) ''_index.scss''
                   else path_join (path_dirname (drop 1 url)) (''_'' @ path_basename (drop 1 url))) of
             Some contents \<Rightarrow> Inr (contents, ''scss'')
           | None \<Rightarrow> Inl (NotFound (drop 1 url))))"
  by (auto simp: load_def loadCandidates_def Let_def split: option.splits)

text \<open>
  Claim C5, as amended.  \<open>load\<close> tries two candidates in order: the resolved path as it
  is; then, if the resolved path is a directory, the file \<open>_index.scss\<close> inside it, and
  otherwise the sibling whose basename has an underscore put in front.  The first that
  exists is read, and when neither exists the load fails naming the resolved path.  So
  when a directory holds both \<open>x.scss\<close> and \<open>_x.scss\<close>, importing \<open>x.scss\<close> resolves to
  \<open>x.scss\<close>, never to the partial.  (No extension is ever added to the request.)
\<close>

theorem load_tries_exact_path_first:
  "load e url =
     (case file_text e (drop 1 url) of
        Some contents \<Rightarrow> Inr (contents, ''scss'')
      | None \<Rightarrow>
          (case file_text e
                  (if isDir e (drop 1 url) then path_join (drop 1 url) ''_index.scss''
                   else path_join (path_dirname (drop 1 url)) (''_'' @ path_basename (drop 1 url))) of
             Some contents \<Rightarrow> Inr (contents, ''scss'')
           | None \<Rightarrow> Inl (NotFound (drop 1 url))))
   \<and> loadCandidates e ''d/x.scss''
     = [''d/x.scss'', if isDir e ''d/x.scss'' then ''d/x.scss/_index.scss'' else ''d/_x.scss'']
   \<and> (file_text e ''d/x.scss'' = Some contents \<longrightarrow> load e ''/d/x.scss'' = Inr (contents, ''scss''))"
proof -
  have c: "loadCandidates e ''d/x.scss''
     = [''d/x.scss'', if isDir e ''d/x.scss'' then ''d/x.scss/_index.scss'' else ''d/_x.scss'']"
  proof -
    have "path_join ''d/x.scss'' ''_index.scss'' = ''d/x.scss/_index.scss''"
      by code_simp
    moreover have "path_join (path_dirname ''d/x.scss'') (''_'' @ path_basename ''d/x.scss'') = ''d/_x.scss''"
      by code_simp
    ultimately show ?thesis
      by (simp add: loadCandidates_def)
  qed
  have x: "file_text e ''d/x.scss'' = Some contents \<Longrightarrow> load e ''/d/x.scss'' = Inr (contents, ''scss'')"
    by (simp add: load_cases)
  show ?thesis
    using load_cases [of e url] c x by blast
qed

theorem load_tries_exact_path_first_witness:
  "file_text partialsEnv ''d/x.scss'' = Some ''a{b:c}''
   \<and> file_text partialsEnv ''d/_x.scss'' = Some ''p{q:r}''
   \<and> canonicalize partialsEnv ''d/main.scss'' ''x.scss'' None = ''/d/x.scss''
   \<and> load partialsEnv ''/d/x.scss'' = Inr (''a{b:c}'', ''scss'')"
proof -
  have f: "file_text partialsEnv ''d/x.scss'' = Some ''a{b:c}''"
    by (simp add: partialsEnv_def blankEnv_def)
  have p: "file_text partialsEnv ''d/_x.scss'' = Some ''p{q:r}''"
    by (simp add: partialsEnv_def blankEnv_def)
  have c: "canonicalize partialsEnv ''d/main.scss'' ''x.scss'' None = ''/d/x.scss''"
    by code_simp
  show ?thesis
    using load_tries_exact_path_first [of partialsEnv "''/d/x.scss''" "''a{b:c}''"] f p c by simp
qed

text \<open>
  Claim C5 as stated fails for the import of \<open>x\<close> from \<open>d/main.scss\<close>, in a directory
  that holds \<open>x.scss\<close> and \<open>_x.scss\<close>: the reference is resolved to \<open>d/x\<close>, the
  candidates are \<open>d/x\<close> and \<open>d/_x\<close>, neither exists, and the load fails.
\<close>

theorem load_bare_name_counterexample:
  "file_text partialsEnv ''d/x.scss'' = Some ''a{b:c}''
   \<and> file_text partialsEnv ''d/_x.scss'' = Some ''p{q:r}''
   \<and> canonicalize partialsEnv ''d/main.scss'' ''x'' None = ''/d/x''
   \<and> loadCandidates partialsEnv ''d/x'' = [''d/x'', ''d/_x'']
   \<and> load partialsEnv (canonicalize partialsEnv ''d/main.scss'' ''x'' None) = Inl (NotFound ''d/x'')"
  by code_simp

subsection \<open>Paths of ordinary names\<close>



















subsection \<open>Built paths of ordinary names\<close>
















subsection \<open>Loops\<close>


lemma js_in_update: "js_in k m \<Longrightarrow> js_in k (AList.update k' v m)"
  by (auto simp: js_in_def update_conv')

lemma js_in_update_same: "js_in k (AList.update k v m)"
  by (simp add: js_in_def update_conv')

lemma map_of_update_other: "k \<noteq> k' \<Longrightarrow> map_of (AList.update k' v m) k = map_of m k"
  by (simp add: update_conv')

subsection \<open>The shape of the document loop\<close>

lemma forEach_endsAsset:
  assumes step: "\<And>s x. P (fst s) \<Longrightarrow> endsAsset P Q (body s x)"
    and "P (fst s)"
  shows "endsAsset P Q (forEach body s xs)"
  using assms(2)
proof (induction xs arbitrary: s)
  case Nil
  then show ?case by (simp add: endsAsset_def)
next
  case (Cons x xs)
  show ?case
  proof (cases "body s x")
    case (Inl h)
    then show ?thesis using step [OF Cons.prems, of x] by (simp add: endsAsset_def)
  next
    case (Inr s')
    then have "P (fst s')"
      using step [OF Cons.prems, of x] by (simp add: endsAsset_def)
    then show ?thesis using Cons.IH Inr by simp
  qed
qed

lemma forEach_ends:
  assumes step: "\<And>s x. P s \<Longrightarrow> ends P Q (body s x)"
    and "P s"
  shows "ends P Q (forEach body s xs)"
  using assms(2)
proof (induction xs arbitrary: s)
  case Nil
  then show ?case by (simp add: ends_def)
next
  case (Cons x xs)
  show ?case
  proof (cases "body s x")
    case (Inl h)
    then show ?thesis using step [OF Cons.prems, of x] by (simp add: ends_def)
  next
    case (Inr s')
    then have "P s'"
      using step [OF Cons.prems, of x] by (simp add: ends_def)
    then show ?thesis using Cons.IH Inr by simp
  qed
qed

lemma processDocument_ends:
  assumes cur: "\<And>st c. P st \<Longrightarrow> P (st\<lparr>currentCompile := c\<rparr>)"
    and weak: "\<And>st. P st \<Longrightarrow> Q st"
    and css: "\<And>s p. P (fst s) \<Longrightarrow> endsAsset P Q (cssStep e cfg (path_dirname htmlPath) s p)"
    and js: "\<And>s p. P (fst s) \<Longrightarrow> endsAsset P Q (jsStep e cfg (path_dirname htmlPath) s p)"
    and emit: "\<And>s. P (fst s) \<Longrightarrow> ends P Q (emitDocument e cfg htmlPath s)"
    and "P st"
  shows "ends P Q (processDocument e cfg st htmlPath)"
proof -
  let ?st = "st\<lparr>currentCompile := Some htmlPath\<rparr>"
  have st: "P ?st" "Q ?st" using assms(6) cur weak by simp_all
  show ?thesis
  proof (cases "getHTML e htmlPath")
    case (Inl err)
    then show ?thesis using st by (simp add: processDocument_def ends_def Let_def)
  next
    case html: (Inr html)
    show ?thesis
    proof (cases "getCSSImports html")
      case (Inl err)
      then show ?thesis using st html by (simp add: processDocument_def ends_def Let_def)
    next
      case cssRefs: (Inr cssRefs)
      show ?thesis
      proof (cases "getJSImports html")
        case (Inl err)
        then show ?thesis using st html cssRefs by (simp add: processDocument_def ends_def Let_def)
      next
        case jsRefs: (Inr jsRefs)
        let ?r1 = "forEach (cssStep e cfg (path_dirname htmlPath)) (?st, html)
                     (map (importMapper (path_dirname htmlPath)) cssRefs)"
        have k1: "endsAsset P Q ?r1"
          by (rule forEach_endsAsset [OF css]) (use st in simp_all)
        show ?thesis
        proof (cases ?r1)
          case (Inl h)
          then show ?thesis
            using k1 html cssRefs jsRefs by (simp add: processDocument_def ends_def endsAsset_def Let_def)
        next
          case s1: (Inr s1)
          let ?r2 = "forEach (jsStep e cfg (path_dirname htmlPath)) s1
                       (map (importMapper (path_dirname htmlPath)) jsRefs)"
          have "P (fst s1)"
            using k1 s1 by (simp add: endsAsset_def)
          then have k2: "endsAsset P Q ?r2"
            by (intro forEach_endsAsset [OF js]) simp_all
          show ?thesis
          proof (cases ?r2)
            case (Inl h)
            then show ?thesis
              using k2 html cssRefs jsRefs s1
              by (simp add: processDocument_def ends_def endsAsset_def Let_def)
          next
            case s2: (Inr s2)
            have "P (fst s2)"
              using k2 s2 by (simp add: endsAsset_def)
            then have "ends P Q (emitDocument e cfg htmlPath s2)"
              by (rule emit)
            then show ?thesis
              using html cssRefs jsRefs s1 s2 by (simp add: processDocument_def Let_def)
          qed
        qed
      qed
    qed
  qed
qed

subsection \<open>Asset steps keep what is stored\<close>

lemma cssStep_keeps:
  assumes "map_of (builtFiles (fst s)) k = Some v"
  shows "endsAsset (\<lambda>st. map_of (builtFiles st) k = Some v) (\<lambda>st. map_of (builtFiles st) k = Some v)
           (cssStep e cfg base s p)"
proof (cases "js_in (cssBuiltPath p) (builtFiles (fst s))")
  case True
  then show ?thesis using assms by (simp add: cssStep_def endsAsset_def Let_def)
next
  case False
  then have "k \<noteq> cssBuiltPath p" using assms by (auto simp: js_in_def)
  then show ?thesis
    using assms False
    by (auto simp: cssStep_def endsAsset_def Let_def map_of_update_other split: sum.splits)
qed

lemma jsStep_keeps:
  assumes "map_of (builtFiles (fst s)) k = Some v"
  shows "endsAsset (\<lambda>st. map_of (builtFiles st) k = Some v) (\<lambda>st. map_of (builtFiles st) k = Some v)
           (jsStep e cfg base s p)"
proof (cases "js_in (jsBuiltPath p) (builtFiles (fst s))")
  case True
  then show ?thesis using assms by (simp add: jsStep_def endsAsset_def Let_def)
next
  case False
  then have "k \<noteq> jsBuiltPath p" using assms by (auto simp: js_in_def)
  then show ?thesis
    using assms False
    by (auto simp: jsStep_def endsAsset_def Let_def map_of_update_other split: sum.splits)
qed



subsection \<open>Each output path is computed for at most once\<close>

lemma callsStored_current: "callsStored (st\<lparr>currentCompile := c\<rparr>) = callsStored st"
  by (simp add: callsStored_def)

lemma callsStored_update:
  "callsStored st \<Longrightarrow> callsStored (st\<lparr>builtFiles := AList.update k v (builtFiles st)\<rparr>)"
  by (auto simp: callsStored_def list_all_iff js_in_update)

lemma callsStored_not_called:
  assumes "callsStored st" "\<not> js_in k (builtFiles st)"
  shows "k \<notin> outputOf ` set (calls st)"
  using assms by (auto simp: callsStored_def list_all_iff)

lemma cssStep_calls:
  assumes "callsStored (fst s)"
  shows "endsAsset callsStored (\<lambda>st. distinct (map outputOf (calls st))) (cssStep e cfg base s p)"
proof (cases "js_in (cssBuiltPath p) (builtFiles (fst s))")
  case True
  then show ?thesis using assms by (simp add: cssStep_def endsAsset_def Let_def callsStored_current)
next
  case False
  then have n: "cssBuiltPath p \<notin> outputOf ` set (calls (fst s))"
    using assms by (rule callsStored_not_called [rotated])
  show ?thesis
    using assms False n
    by (auto simp: cssStep_def endsAsset_def Let_def callsStored_def list_all_iff js_in_update
        js_in_update_same split: sum.splits)
qed

lemma jsStep_calls:
  assumes "callsStored (fst s)"
  shows "endsAsset callsStored (\<lambda>st. distinct (map outputOf (calls st))) (jsStep e cfg base s p)"
proof (cases "js_in (jsBuiltPath p) (builtFiles (fst s))")
  case True
  then show ?thesis using assms by (simp add: jsStep_def endsAsset_def Let_def callsStored_current)
next
  case False
  then have n: "jsBuiltPath p \<notin> outputOf ` set (calls (fst s))"
    using assms by (rule callsStored_not_called [rotated])
  show ?thesis
    using assms False n
    by (auto simp: jsStep_def endsAsset_def Let_def callsStored_def list_all_iff js_in_update
        js_in_update_same split: sum.splits)
qed

lemma emitDocument_calls:
  assumes "callsStored (fst s)"
  shows "ends callsStored (\<lambda>st. distinct (map outputOf (calls st))) (emitDocument e cfg htmlPath s)"
  using assms
  by (auto simp: emitDocument_def ends_def Let_def callsStored_def list_all_iff js_in_update
      split: sum.splits)

lemma processDocument_calls:
  assumes "callsStored st"
  shows "ends callsStored (\<lambda>st. distinct (map outputOf (calls st))) (processDocument e cfg st htmlPath)"
  by (rule processDocument_ends)
     (use assms in \<open>simp_all add: cssStep_calls jsStep_calls emitDocument_calls callsStored_current\<close>,
      simp add: callsStored_def)

lemma processDocuments_calls:
  "ends callsStored (\<lambda>st. distinct (map outputOf (calls st))) (processDocuments e cfg htmlFiles)"
  unfolding processDocuments_def
  by (rule forEach_ends [OF processDocument_calls]) (simp_all add: callsStored_def initialState_def)

subsection \<open>Endings and extensions\<close>









subsection \<open>The write loop and the copy loop\<close>









subsection \<open>The build as a whole\<close>

lemma build_calls_distinct: "distinct (map outputOf (calls (state (build e cfg d0))))"
proof (cases "getFilesMatching e (source cfg)")
  case (Inl err)
  then show ?thesis by (simp add: build_def initialState_def)
next
  case (Inr htmlFiles)
  have p: "ends callsStored (\<lambda>st. distinct (map outputOf (calls st))) (processDocuments e cfg htmlFiles)"
    by (rule processDocuments_calls)
  show ?thesis
  proof (cases "processDocuments e cfg htmlFiles")
    case (Inl h)
    then show ?thesis using p Inr by (cases h) (simp add: build_def ends_def)
  next
    case st: (Inr st)
    then have "distinct (map outputOf (calls st))"
      using p by (simp add: ends_def callsStored_def)
    moreover have "state (writeDestination e cfg st d0) = st"
      by (auto simp: writeDestination_def split: sum.splits prod.splits)
    ultimately show ?thesis using Inr st by (simp add: build_def)
  qed
qed




text \<open>
  Claim C2: the script transform should be called with the script option \<open>js.minify\<close>.
  On a document with one script, built with \<open>css.minify\<close> off and \<open>js.minify\<close> on, the
  one call of the script transform has the minify flag off: the build passes it the style
  option.
\<close>

theorem script_transform_gets_the_style_option:
  "js_minify scriptConfig = True \<and> css_minify scriptConfig = False
   \<and> halted (build scriptEnv scriptConfig Map.empty) = None
   \<and> calls (state (build scriptEnv scriptConfig Map.empty)) = [CallJS ''src/app.ts'' ''src'' False]"
  by code_simp

text \<open>
  Claim C6, as amended.  Over a whole build no two calls of a transform compute for the
  same output path.  An asset reference whose output path is already a key of the output
  map (or a property every object inherits) calls no transform and leaves the map as it
  is, so a later reference with that output path finds the content stored under it, even
  when its source file is another one; and no asset step changes an entry that is present.
  (The entry of a document is not covered: it is assigned whenever the document is
  emitted, whatever was stored under its path.)
\<close>

theorem asset_output_paths_computed_once:
  "distinct (map outputOf (calls (state (build e cfg d0))))
   \<and> (js_in (cssBuiltPath p) (builtFiles (fst s)) \<longrightarrow>
        cssStep e cfg base s p
        = Inr ((fst s)\<lparr>currentCompile := Some p\<rparr>,
               replaceCSSImports (snd s) (importDemapper e base p) (importDemapper e base (cssBuiltPath p))))
   \<and> (js_in (jsBuiltPath p) (builtFiles (fst s)) \<longrightarrow>
        jsStep e cfg base s p
        = Inr ((fst s)\<lparr>currentCompile := Some p\<rparr>,
               replaceJSImports (snd s) (importDemapper e base p) (importDemapper e base (jsBuiltPath p))))
   \<and> (\<forall>s' k v. cssStep e cfg base s p = Inr s' \<and> map_of (builtFiles (fst s)) k = Some v
        \<longrightarrow> map_of (builtFiles (fst s')) k = Some v)
   \<and> (\<forall>s' k v. jsStep e cfg base s p = Inr s' \<and> map_of (builtFiles (fst s)) k = Some v
        \<longrightarrow> map_of (builtFiles (fst s')) k = Some v)"
proof -
  have c: "map_of (builtFiles (fst s')) k = Some v"
    if "cssStep e cfg base s p = Inr s'" "map_of (builtFiles (fst s)) k = Some v" for s' k v
    using cssStep_keeps [OF that(2), of e cfg base p] that(1) by (simp add: endsAsset_def)
  have j: "map_of (builtFiles (fst s')) k = Some v"
    if "jsStep e cfg base s p = Inr s'" "map_of (builtFiles (fst s)) k = Some v" for s' k v
    using jsStep_keeps [OF that(2), of e cfg base p] that(1) by (simp add: endsAsset_def)
  have hc: "js_in (cssBuiltPath p) (builtFiles (fst s)) \<longrightarrow>
        cssStep e cfg base s p
        = Inr ((fst s)\<lparr>currentCompile := Some p\<rparr>,
               replaceCSSImports (snd s) (importDemapper e base p) (importDemapper e base (cssBuiltPath p)))"
    by (simp add: cssStep_def Let_def)
  have hj: "js_in (jsBuiltPath p) (builtFiles (fst s)) \<longrightarrow>
        jsStep e cfg base s p
        = Inr ((fst s)\<lparr>currentCompile := Some p\<rparr>,
               replaceJSImports (snd s) (importDemapper e base p) (importDemapper e base (jsBuiltPath p)))"
    by (simp add: jsStep_def Let_def)
  show ?thesis
    using build_calls_distinct [of e cfg d0] c j hc hj by blast
qed

theorem asset_output_paths_computed_once_witness:
  "processDocuments sharedOutputEnv plainConfig [''src/a.html'']
     = Inr (afterFirstDocument\<lparr>currentCompile := Some ''src/a.html''\<rparr>)
   \<and> js_in (cssBuiltPath ''src/x.css'') (builtFiles afterFirstDocument)
   \<and> cssStep sharedOutputEnv plainConfig ''src'' (afterFirstDocument, secondDocument) ''src/x.css''
     = Inr (afterFirstDocument\<lparr>currentCompile := Some ''src/x.css''\<rparr>, secondDocument)
   \<and> js_in (jsBuiltPath ''src/x.css'') (builtFiles afterFirstDocument)
   \<and> jsStep sharedOutputEnv plainConfig ''src'' (afterFirstDocument, secondDocument) ''src/x.css''
     = Inr (afterFirstDocument\<lparr>currentCompile := Some ''src/x.css''\<rparr>, secondDocument)
   \<and> map_of (builtFiles afterFirstDocument) ''src/x.css'' = Some ''compiled:from-scss''
   \<and> map_of (builtFiles (fst (afterFirstDocument\<lparr>currentCompile := Some ''src/x.css''\<rparr>, secondDocument)))
         ''src/x.css''
     = Some ''compiled:from-scss''
   \<and> calls (state (build sharedOutputEnv plainConfig Map.empty)) = [CallCSS ''src/x.scss'' True]
   \<and> distinct (map outputOf (calls (state (build sharedOutputEnv plainConfig Map.empty))))
   \<and> map_of (builtFiles (state (build sharedOutputEnv plainConfig Map.empty))) ''src/x.css''
     = Some ''compiled:from-scss''"
proof -
  have a: "processDocuments sharedOutputEnv plainConfig [''src/a.html'']
     = Inr (afterFirstDocument\<lparr>currentCompile := Some ''src/a.html''\<rparr>)"
    by code_simp
  have c: "js_in (cssBuiltPath ''src/x.css'') (builtFiles afterFirstDocument)"
    by code_simp
  have j: "js_in (jsBuiltPath ''src/x.css'') (builtFiles afterFirstDocument)"
    by code_simp
  have r: "replaceCSSImports secondDocument
             (importDemapper sharedOutputEnv ''src'' ''src/x.css'')
             (importDemapper sharedOutputEnv ''src'' (cssBuiltPath ''src/x.css'')) = secondDocument"
    by code_simp
  have q: "replaceJSImports secondDocument
             (importDemapper sharedOutputEnv ''src'' ''src/x.css'')
             (importDemapper sharedOutputEnv ''src'' (jsBuiltPath ''src/x.css'')) = secondDocument"
    by code_simp
  have b: "calls (state (build sharedOutputEnv plainConfig Map.empty)) = [CallCSS ''src/x.scss'' True]"
    by code_simp
  have m: "map_of (builtFiles (state (build sharedOutputEnv plainConfig Map.empty))) ''src/x.css''
     = Some ''compiled:from-scss''"
    by code_simp
  note t = asset_output_paths_computed_once
      [of sharedOutputEnv plainConfig Map.empty "''src/x.css''" "(afterFirstDocument, secondDocument)"
          "''src''", unfolded fst_conv snd_conv r q]
  have cs: "cssStep sharedOutputEnv plainConfig ''src'' (afterFirstDocument, secondDocument) ''src/x.css''
     = Inr (afterFirstDocument\<lparr>currentCompile := Some ''src/x.css''\<rparr>, secondDocument)"
    using t c by blast
  have js: "jsStep sharedOutputEnv plainConfig ''src'' (afterFirstDocument, secondDocument) ''src/x.css''
     = Inr (afterFirstDocument\<lparr>currentCompile := Some ''src/x.css''\<rparr>, secondDocument)"
    using t j by blast
  have d: "distinct (map outputOf (calls (state (build sharedOutputEnv plainConfig Map.empty))))"
    using t by blast
  have k: "map_of (builtFiles afterFirstDocument) ''src/x.css'' = Some ''compiled:from-scss''"
    by code_simp
  have k': "map_of (builtFiles (fst (afterFirstDocument\<lparr>currentCompile := Some ''src/x.css''\<rparr>,
                                   secondDocument))) ''src/x.css''
     = Some ''compiled:from-scss''"
    using t cs k by blast
  show ?thesis
    using a c cs j js b d m k k' by blast
qed

text \<open>
  Claim C6 as stated fails when an output path is also the path of a document.  The
  first document links \<open>b.html\<close> as a style sheet, so the compiled content is stored under
  \<open>src/b.html\<close>; when the second document, \<open>src/b.html\<close>, is emitted, its text is stored
  under the same key, over the compiled content.
\<close>

theorem document_overwrites_compiled_entry_counterexample:
  "getFilesMatching linkToDocumentEnv (source plainConfig) = Inr [''src/a.html'', ''src/b.html'']
   \<and> processDocuments linkToDocumentEnv plainConfig [''src/a.html'']
     = Inr \<lparr>builtFiles = [(''src/b.html'', ''compiled:p{color:red}''),
                           (''src/a.html'', ''<link rel=stylesheet href=b.html></link>'')],
            currentCompile = Some ''src/a.html'',
            calls = [CallCSS ''src/b.html'' True]\<rparr>
   \<and> halted (build linkToDocumentEnv plainConfig Map.empty) = None
   \<and> map_of (builtFiles (state (build linkToDocumentEnv plainConfig Map.empty))) ''src/b.html''
     = Some ''p{color:red}''"
  by code_simp



end
